theory Spec2Isabelle
  imports Complex_Main "HOL-Library.AList"
begin

section \<open>Values of the program\<close>

text \<open>
  The module \<^verbatim>\<open>intuition_model.py\<close> computes with Python numbers. A Python \<^verbatim>\<open>int\<close> is
  unbounded; a Python \<^verbatim>\<open>float\<close> is idealised here as a real number (rounding, and the
  narrowing to \<^verbatim>\<open>float32\<close> of the numpy arrays, are not represented). The two are kept apart
  because \<^verbatim>\<open>load\<close> coerces with \<^verbatim>\<open>int(...)\<close> and \<^verbatim>\<open>float(...)\<close>.
\<close>

datatype pynum = PInt int | PFloat real

fun num_val :: "pynum \<Rightarrow> real" where
  "num_val (PInt n) = of_int n"
| "num_val (PFloat r) = r"

datatype error =
    KeyError | ZeroDivisionError | TypeError | ValueError | IndexError
  | AttributeError | FileNotFoundError | RuntimeError string

text \<open>Sequencing of fallible steps: the first exception ends the computation.\<close>

definition and_then :: "error + 'a \<Rightarrow> ('a \<Rightarrow> error + 'b) \<Rightarrow> error + 'b" where
  "and_then r f = (case r of Inl e \<Rightarrow> Inl e | Inr x \<Rightarrow> f x)"

text \<open>\<^verbatim>\<open>a + b\<close>: int plus int is an int, anything else is a float.\<close>

fun py_add :: "pynum \<Rightarrow> pynum \<Rightarrow> pynum" where
  "py_add (PInt a) (PInt b) = PInt (a + b)"
| "py_add a b = PFloat (num_val a + num_val b)"

text \<open>\<^verbatim>\<open>a / b\<close> on Python numbers: true division, always a float, raising on a zero divisor.\<close>

definition py_truediv :: "pynum \<Rightarrow> pynum \<Rightarrow> error + pynum" where
  "py_truediv a b =
     (if num_val b = 0 then Inl ZeroDivisionError else Inr (PFloat (num_val a / num_val b)))"

text \<open>
  Dictionary keys. Python compares and hashes numbers by value (\<^verbatim>\<open>1 == 1.0\<close>), so a number
  used inside a key carries its value only. A key is a number or a tuple of keys.
\<close>

datatype hashable = Num real | Tup "hashable list"

text \<open>\<^verbatim>\<open>tuple(features)\<close> for a sequence of numbers.\<close>

definition tuple_of :: "real list \<Rightarrow> hashable" where
  "tuple_of features = Tup (map Num features)"

text \<open>
  A \<^verbatim>\<open>dict\<close> is an association list in insertion order with distinct keys:
  \<^verbatim>\<open>d[k] = v\<close> is \<^const>\<open>AList.update\<close> (overwrite in place, or append), \<^verbatim>\<open>d[k]\<close> raises
  \<^verbatim>\<open>KeyError\<close> on a missing key, and so does \<^verbatim>\<open>del d[k]\<close>.
\<close>

type_synonym pydict = "(hashable \<times> pynum) list"

definition dict_getitem :: "pydict \<Rightarrow> hashable \<Rightarrow> error + pynum" where
  "dict_getitem d k = (case map_of d k of None \<Rightarrow> Inl KeyError | Some v \<Rightarrow> Inr v)"

definition dict_get :: "pydict \<Rightarrow> hashable \<Rightarrow> pynum \<Rightarrow> pynum" where
  "dict_get d k dflt = (case map_of d k of None \<Rightarrow> dflt | Some v \<Rightarrow> v)"

definition dict_delitem :: "pydict \<Rightarrow> hashable \<Rightarrow> error + pydict" where
  "dict_delitem d k =
     (case map_of d k of None \<Rightarrow> Inl KeyError | Some _ \<Rightarrow> Inr (AList.delete k d))"

section \<open>UniformPolicy\<close>

text \<open>
  \<^verbatim>\<open>UniformPolicy.predict\<close>: the empty dict for no actions, else \<^verbatim>\<open>[1.0 / A] * A\<close>.
\<close>

datatype policy_result = EmptyDict | Probabilities "pynum list"

definition UniformPolicy_predict :: "'f \<Rightarrow> 'a list \<Rightarrow> policy_result" where
  "UniformPolicy_predict features allowable_actions =
     (if allowable_actions = [] then EmptyDict
      else let uniform_probability = PFloat (1 / real (length allowable_actions))
           in Probabilities (replicate (length allowable_actions) uniform_probability))"

section \<open>GBDTPolicy\<close>

text \<open>
  The rows of \<^verbatim>\<open>to_predict\<close> (lines 114-118). \<^verbatim>\<open>numpy.empty\<close> allocates an A by F+1 array
  of unspecified content, here \<open>junk\<close>; the loop then writes the action into column 0 of
  row \<open>i\<close> and the agent's features into columns 1..F.
\<close>

definition write_row :: "nat \<Rightarrow> real \<Rightarrow> real list \<Rightarrow> real list \<Rightarrow> real list" where
  "write_row num_agent_features action agent_features row =
     (let row1 = row[0 := action]
      in take 1 row1 @ take num_agent_features agent_features
           @ drop (num_agent_features + 1) row1)"

definition build_to_predict :: "real \<Rightarrow> real list \<Rightarrow> real list \<Rightarrow> real list list" where
  "build_to_predict junk agent_features allowable_actions =
     (let num_agent_features = length agent_features;
          empty = replicate (length allowable_actions)
                    (replicate (num_agent_features + 1) junk)
      in fold (\<lambda>(i, action) to_predict.
                 to_predict[i := write_row num_agent_features action agent_features
                                   (to_predict ! i)])
           (List.enumerate 0 allowable_actions) empty)"

text \<open>
  Line 127 divides a numpy array by a numpy scalar. numpy follows IEEE 754 and raises
  nothing: a zero divisor gives \<^verbatim>\<open>nan\<close> for a zero numerator and a signed infinity
  otherwise (a warning is printed). The finite quotients are idealised as reals.
\<close>

datatype npfloat = Finite real | NaN | PosInf | NegInf

definition np_divide :: "real \<Rightarrow> real \<Rightarrow> npfloat" where
  "np_divide x s =
     (if s \<noteq> 0 then Finite (x / s)
      else if x = 0 then NaN else if 0 < x then PosInf else NegInf)"

definition normalize_scores :: "real list \<Rightarrow> error + npfloat list" where
  "normalize_scores move_probabilities =
     Inr (map (\<lambda>x. np_divide x (sum_list move_probabilities)) move_probabilities)"

text \<open>
  \<^verbatim>\<open>GBDTPolicy.predict\<close>. The backend \<^verbatim>\<open>self.treelite_predictor.predict\<close> belongs to the
  absent \<^verbatim>\<open>GBDTModel\<close> and is a parameter: a function from the batch of rows to the
  scores. The result carries the list of batches handed to the backend, so that a call
  that never reaches the backend is visible.
\<close>

record gbdt_outcome =
  backend_calls :: "real list list list"
  returned :: "error + npfloat list"

definition GBDTPolicy_predict ::
  "(real list list \<Rightarrow> real list) \<Rightarrow> real \<Rightarrow> real list \<Rightarrow> real list \<Rightarrow> gbdt_outcome" where
  "GBDTPolicy_predict treelite_predict junk agent_features allowable_actions =
     (if length allowable_actions = 1
      then \<lparr>backend_calls = [], returned = Inr [Finite 1]\<rparr>
      else let to_predict = build_to_predict junk agent_features allowable_actions;
               move_probabilities = treelite_predict to_predict
           in \<lparr>backend_calls = [to_predict], returned = normalize_scores move_probabilities\<rparr>)"

text \<open>
  \<^verbatim>\<open>GBDTPolicy.extract_policy_observations\<close> (lines 57-75): two nested loops appending to
  two lists. \<open>features\<close> is a two-dimensional array, so every row index below
  \<^verbatim>\<open>features.shape[0]\<close> is in range; \<^verbatim>\<open>labels[row_index]\<close> raises \<^verbatim>\<open>IndexError\<close> when
  \<open>labels\<close> is shorter.
\<close>

type_synonym observations = "real list list \<times> real list"

definition label_loop :: "real list \<Rightarrow> real list \<Rightarrow> observations \<Rightarrow> observations" where
  "label_loop feature_row label_row acc =
     fold (\<lambda>(i, mcts_label) (observation_features, observation_labels).
             (observation_features @ [real i # feature_row],
              observation_labels @ [mcts_label]))
       (List.enumerate 0 label_row) acc"

fun row_loop ::
  "real list list \<Rightarrow> real list list \<Rightarrow> nat list \<Rightarrow> observations \<Rightarrow> error + observations" where
  "row_loop features labels [] acc = Inr acc"
| "row_loop features labels (row_index # rest) acc =
     (if row_index < length labels
      then row_loop features labels rest
             (label_loop (features ! row_index) (labels ! row_index) acc)
      else Inl IndexError)"

definition extract_policy_observations ::
  "real list list \<Rightarrow> real list list \<Rightarrow> error + observations" where
  "extract_policy_observations features labels =
     row_loop features labels [0..<length features] ([], [])"

section \<open>Pruning shared by the tabular estimators\<close>

text \<open>
  \<^verbatim>\<open>to_delete\<close>: the keys whose count is \<^verbatim>\<open><= 5\<close>, in dictionary order.
\<close>

definition infrequent_keys :: "pydict \<Rightarrow> hashable list" where
  "infrequent_keys d = map fst (filter (\<lambda>(k, v). num_val v \<le> 5) d)"

text \<open>
  \<^verbatim>\<open>for k in to_delete: del first[k]; del second[k]\<close>. The result is the exception that
  stopped the loop, if any, and the two dictionaries as the loop left them.
\<close>

fun delete_keys ::
  "hashable list \<Rightarrow> pydict \<times> pydict \<Rightarrow> error option \<times> (pydict \<times> pydict)" where
  "delete_keys [] (first, second) = (None, (first, second))"
| "delete_keys (k # ks) (first, second) =
     (case dict_delitem first k of
        Inl e \<Rightarrow> (Some e, (first, second))
      | Inr first' \<Rightarrow>
          (case dict_delitem second k of
             Inl e \<Rightarrow> (Some e, (first', second))
           | Inr second' \<Rightarrow> delete_keys ks (first', second')))"

section \<open>NaiveValue\<close>

text \<open>The dataclass: both fields default to \<^verbatim>\<open>None\<close>.\<close>

record NaiveValue =
  state_visits :: "pydict option"
  state_wins :: "pydict option"

text \<open>\<^verbatim>\<open>obj[k]\<close> on a field: \<^verbatim>\<open>None\<close> is not subscriptable.\<close>

definition subscript :: "pydict option \<Rightarrow> hashable \<Rightarrow> error + pynum" where
  "subscript obj k = (case obj of None \<Rightarrow> Inl TypeError | Some d \<Rightarrow> dict_getitem d k)"

text \<open>
  \<^verbatim>\<open>NaiveValue.predict\<close> (lines 191-200). The loop variable \<^verbatim>\<open>board_features\<close> is not used
  in the body: every iteration looks up \<^verbatim>\<open>tuple(features)\<close>, the tuple of the whole
  batch. The rows of the batch are tuples, as the comment on line 192 says.
\<close>

definition wins_over_visits :: "NaiveValue \<Rightarrow> hashable \<Rightarrow> error + pynum" where
  "wins_over_visits self key =
     and_then (subscript (state_wins self) key) (\<lambda>wins.
     and_then (subscript (state_visits self) key) (\<lambda>visits.
     py_truediv wins visits))"

fun NaiveValue_predict_loop ::
  "NaiveValue \<Rightarrow> hashable list \<Rightarrow> hashable list \<Rightarrow> pynum list \<Rightarrow> error + pynum list" where
  "NaiveValue_predict_loop self features [] values = Inr values"
| "NaiveValue_predict_loop self features (board_features # rest) values =
     (case wins_over_visits self (Tup features) of
        Inr ratio \<Rightarrow> NaiveValue_predict_loop self features rest (values @ [ratio])
      | Inl e \<Rightarrow>
          if e = KeyError \<or> e = ZeroDivisionError
          then NaiveValue_predict_loop self features rest (values @ [PInt 0])
          else Inl e)"

definition NaiveValue_predict :: "NaiveValue \<Rightarrow> hashable list \<Rightarrow> error + pynum list" where
  "NaiveValue_predict self features = NaiveValue_predict_loop self features features []"

text \<open>
  A statement run on an estimator yields an outcome and the estimator as the statement
  left it; an exception skips the statements that follow.
\<close>

type_synonym ('s, 'a) stmt = "'s \<Rightarrow> (error + 'a) \<times> 's"

definition raise :: "error \<Rightarrow> ('s, 'a) stmt" where
  "raise e = (\<lambda>self. (Inl e, self))"

definition seq :: "('s, 'a) stmt \<Rightarrow> ('a \<Rightarrow> ('s, 'b) stmt) \<Rightarrow> ('s, 'b) stmt" where
  "seq first rest =
     (\<lambda>self. case first self of
                (Inl e, self') \<Rightarrow> (Inl e, self')
              | (Inr x, self') \<Rightarrow> rest x self')"

text \<open>
  \<^verbatim>\<open>NaiveValue.train\<close> (lines 153-175). Its first statement raises. The statements after
  it are embedded up to the pruning loop; \<^verbatim>\<open>split_train_test\<close> is imported from an
  absent module and is a parameter. \<^verbatim>\<open>defaultdict(int)\<close> reads a missing key as \<^verbatim>\<open>0\<close>.
\<close>

type_synonym value_sample = "real list \<times> pynum"

definition count_visit :: "value_sample \<Rightarrow> pydict \<times> pydict \<Rightarrow> pydict \<times> pydict" where
  "count_visit sample acc =
     (case (sample, acc) of ((features, label), (visits, wins)) \<Rightarrow>
        (AList.update (tuple_of features)
           (py_add (dict_get visits (tuple_of features) (PInt 0)) (PInt 1)) visits,
         AList.update (tuple_of features)
           (py_add (dict_get wins (tuple_of features) (PInt 0)) label) wins))"

definition NaiveValue_train_after_raise ::
  "('samples \<Rightarrow> real \<Rightarrow> string \<Rightarrow> value_sample list \<times> value_sample list) \<Rightarrow>
   'samples \<Rightarrow> real \<Rightarrow> (NaiveValue, unit) stmt" where
  "NaiveValue_train_after_raise split_train_test samples test_fraction =
     (\<lambda>self.
        let (train_set, test_set) = split_train_test samples test_fraction ''value'';
            (visits, wins) = fold count_visit train_set ([], []);
            (stopped, (visits', wins')) = delete_keys (infrequent_keys visits) (visits, wins);
            self' = \<lparr>state_visits = Some visits', state_wins = Some wins'\<rparr>
        in (case stopped of None \<Rightarrow> (Inr (), self') | Some e \<Rightarrow> (Inl e, self')))"

definition NaiveValue_train ::
  "('samples \<Rightarrow> real \<Rightarrow> string \<Rightarrow> value_sample list \<times> value_sample list) \<Rightarrow>
   'samples \<Rightarrow> real \<Rightarrow> (NaiveValue, unit) stmt" where
  "NaiveValue_train split_train_test samples test_fraction =
     seq (raise (RuntimeError ''Broken'') :: (NaiveValue, unit) stmt)
       (\<lambda>_. NaiveValue_train_after_raise split_train_test samples test_fraction)"

section \<open>NaivePolicy\<close>

record NaivePolicy =
  state_action_mass :: "pydict option"
  state_action_weight :: "pydict option"

text \<open>\<^verbatim>\<open>tuple(features + [i])\<close>.\<close>

definition state_action_key :: "real list \<Rightarrow> nat \<Rightarrow> hashable" where
  "state_action_key features i = tuple_of (features @ [real i])"

text \<open>
  \<^verbatim>\<open>NaivePolicy.train\<close> (lines 222-242). A sample is \<^verbatim>\<open>(sample_type, features, labels)\<close>.
\<close>

type_synonym policy_sample = "string \<times> real list \<times> pynum list"

definition add_label :: "real list \<Rightarrow> nat \<times> pynum \<Rightarrow> pydict \<times> pydict \<Rightarrow> pydict \<times> pydict" where
  "add_label features entry acc =
     (case (entry, acc) of ((i, label), (mass, weight)) \<Rightarrow>
        let state_action = state_action_key features i
        in (AList.update state_action
              (py_add (dict_get mass state_action (PFloat 0)) label) mass,
            AList.update state_action
              (py_add (dict_get weight state_action (PFloat 0)) (PFloat 1)) weight))"

fun accumulate :: "policy_sample list \<Rightarrow> pydict \<times> pydict \<Rightarrow> pydict \<times> pydict" where
  "accumulate [] acc = acc"
| "accumulate ((sample_type, features, labels) # rest) acc =
     (if sample_type = ''value'' then accumulate rest acc
      else accumulate rest (fold (add_label features) (List.enumerate 0 labels) acc))"

definition NaivePolicy_train :: "policy_sample list \<Rightarrow> (NaivePolicy, unit) stmt" where
  "NaivePolicy_train samples =
     (\<lambda>self.
        let (mass, weight) = accumulate samples ([], []);
            (stopped, (mass', weight')) = delete_keys (infrequent_keys weight) (mass, weight);
            self' = \<lparr>state_action_mass = Some mass', state_action_weight = Some weight'\<rparr>
        in (case stopped of None \<Rightarrow> (Inr (), self') | Some e \<Rightarrow> (Inl e, self')))"

text \<open>
  \<^verbatim>\<open>NaivePolicy.predict\<close> (lines 244-255): the loop inside \<^verbatim>\<open>try\<close>, and the handler that
  catches \<^verbatim>\<open>KeyError\<close> only.
\<close>

fun NaivePolicy_predict_loop ::
  "NaivePolicy \<Rightarrow> real list \<Rightarrow> (nat \<times> 'a) list \<Rightarrow> pynum list \<Rightarrow> error + pynum list" where
  "NaivePolicy_predict_loop self features [] move_probabilities = Inr move_probabilities"
| "NaivePolicy_predict_loop self features ((i, action) # rest) move_probabilities =
     and_then (subscript (state_action_mass self) (state_action_key features i)) (\<lambda>mass.
     and_then (subscript (state_action_weight self) (state_action_key features i)) (\<lambda>weight.
     and_then (py_truediv mass weight) (\<lambda>ratio.
     NaivePolicy_predict_loop self features rest (move_probabilities @ [ratio]))))"

definition NaivePolicy_predict :: "NaivePolicy \<Rightarrow> real list \<Rightarrow> 'a list \<Rightarrow> error + pynum list" where
  "NaivePolicy_predict self features allowable_actions =
     (case NaivePolicy_predict_loop self features (List.enumerate 0 allowable_actions) [] of
        Inr move_probabilities \<Rightarrow> Inr move_probabilities
      | Inl e \<Rightarrow>
          if e = KeyError
          then and_then (py_truediv (PFloat 1) (PInt (int (length allowable_actions))))
                 (\<lambda>uniform_probability.
                    Inr (replicate (length allowable_actions) uniform_probability))
          else Inl e)"

section \<open>Saving and loading\<close>

text \<open>
  \<^verbatim>\<open>json.dumps\<close> writes a number as a JSON number (an int as an integer literal, a float
  with a fraction or exponent), and a tuple or list as an array; \<^verbatim>\<open>json.loads\<close> reads
  them back as int, float and list. The text of the file is not represented: a file
  holds the JSON value, and the document is the top-level object, a list of named
  fields. The values covered are numbers and arrays.
\<close>

datatype json = JInt int | JFloat real | JArray "json list"

type_synonym document = "(string \<times> json) list"
type_synonym filesystem = "string \<Rightarrow> document option"

text \<open>
  A number inside a key stands for its value, whether Python holds it as an int or as a
  float: it is written as the JSON number of that value, and read back as that value.
\<close>

fun key_json :: "hashable \<Rightarrow> json" where
  "key_json (Num r) = JFloat r"
| "key_json (Tup ks) = JArray (map key_json ks)"

fun num_json :: "pynum \<Rightarrow> json" where
  "num_json (PInt n) = JInt n"
| "num_json (PFloat r) = JFloat r"

text \<open>\<^verbatim>\<open>list(d.items())\<close> as JSON: an array of two-element arrays.\<close>

definition items_json :: "pydict \<Rightarrow> json" where
  "items_json d = JArray (map (\<lambda>(k, v). JArray [key_json k, num_json v]) d)"

text \<open>\<^verbatim>\<open>obj.items()\<close> on a field: \<^verbatim>\<open>None\<close> has no such attribute.\<close>

definition items :: "pydict option \<Rightarrow> error + pydict" where
  "items obj = (case obj of None \<Rightarrow> Inl AttributeError | Some d \<Rightarrow> Inr d)"

definition NaiveValue_save :: "NaiveValue \<Rightarrow> string \<Rightarrow> filesystem \<Rightarrow> error + filesystem" where
  "NaiveValue_save self output_path fs =
     and_then (items (state_visits self)) (\<lambda>visits.
     and_then (items (state_wins self)) (\<lambda>wins.
     Inr (fs(output_path \<mapsto>
            [(''state_visits'', items_json visits), (''state_wins'', items_json wins)]))))"

definition NaivePolicy_save :: "NaivePolicy \<Rightarrow> string \<Rightarrow> filesystem \<Rightarrow> error + filesystem" where
  "NaivePolicy_save self output_path fs =
     and_then (items (state_action_mass self)) (\<lambda>mass.
     and_then (items (state_action_weight self)) (\<lambda>weight.
     Inr (fs(output_path \<mapsto>
            [(''state_action_mass'', items_json mass),
             (''state_action_weight'', items_json weight)]))))"

text \<open>
  Loading. \<^verbatim>\<open>for (key, value) in ...\<close> unpacks a two-element list; \<^verbatim>\<open>tuple(key)\<close> needs a
  list, and the tuple is hashable only if its elements are numbers; \<^verbatim>\<open>int(value)\<close>
  truncates a float towards zero; \<^verbatim>\<open>float(value)\<close> converts an int.
\<close>

fun unpack_pair :: "json \<Rightarrow> error + json \<times> json" where
  "unpack_pair (JArray [key, value]) = Inr (key, value)"
| "unpack_pair (JArray _) = Inl ValueError"
| "unpack_pair _ = Inl TypeError"

fun key_element :: "json \<Rightarrow> error + hashable" where
  "key_element (JInt n) = Inr (Num (of_int n))"
| "key_element (JFloat r) = Inr (Num r)"
| "key_element (JArray _) = Inl TypeError"

fun key_elements :: "json list \<Rightarrow> error + hashable list" where
  "key_elements [] = Inr []"
| "key_elements (x # xs) =
     and_then (key_element x) (\<lambda>k. and_then (key_elements xs) (\<lambda>ks. Inr (k # ks)))"

fun py_tuple :: "json \<Rightarrow> error + hashable" where
  "py_tuple (JArray xs) = and_then (key_elements xs) (\<lambda>ks. Inr (Tup ks))"
| "py_tuple _ = Inl TypeError"

fun py_int :: "json \<Rightarrow> error + pynum" where
  "py_int (JInt n) = Inr (PInt n)"
| "py_int (JFloat r) = Inr (PInt (if 0 \<le> r then \<lfloor>r\<rfloor> else \<lceil>r\<rceil>))"
| "py_int (JArray _) = Inl TypeError"

fun py_float :: "json \<Rightarrow> error + pynum" where
  "py_float (JInt n) = Inr (PFloat (of_int n))"
| "py_float (JFloat r) = Inr (PFloat r)"
| "py_float (JArray _) = Inl TypeError"

text \<open>The dict comprehension: a later pair with the same key overwrites the earlier one.\<close>

fun load_items :: "(json \<Rightarrow> error + pynum) \<Rightarrow> json list \<Rightarrow> pydict \<Rightarrow> error + pydict" where
  "load_items convert [] d = Inr d"
| "load_items convert (item # rest) d =
     and_then (unpack_pair item) (\<lambda>(key, value).
     and_then (py_tuple key) (\<lambda>k.
     and_then (convert value) (\<lambda>v.
     load_items convert rest (AList.update k v d))))"

definition load_field :: "(json \<Rightarrow> error + pynum) \<Rightarrow> document \<Rightarrow> string \<Rightarrow> error + pydict" where
  "load_field convert data field =
     (case map_of data field of
        None \<Rightarrow> Inl KeyError
      | Some (JArray pairs) \<Rightarrow> load_items convert pairs []
      | Some _ \<Rightarrow> Inl TypeError)"

definition NaiveValue_load :: "string \<Rightarrow> filesystem \<Rightarrow> (NaiveValue, unit) stmt" where
  "NaiveValue_load model_path fs =
     (\<lambda>self. case fs model_path of
        None \<Rightarrow> (Inl FileNotFoundError, self)
      | Some data \<Rightarrow>
          (case load_field py_int data ''state_visits'' of
             Inl e \<Rightarrow> (Inl e, self)
           | Inr visits \<Rightarrow>
               (case load_field py_int data ''state_wins'' of
                  Inl e \<Rightarrow> (Inl e, self\<lparr>state_visits := Some visits\<rparr>)
                | Inr wins \<Rightarrow>
                    (Inr (), self\<lparr>state_visits := Some visits, state_wins := Some wins\<rparr>))))"

definition NaivePolicy_load :: "string \<Rightarrow> filesystem \<Rightarrow> (NaivePolicy, unit) stmt" where
  "NaivePolicy_load model_path fs =
     (\<lambda>self. case fs model_path of
        None \<Rightarrow> (Inl FileNotFoundError, self)
      | Some data \<Rightarrow>
          (case load_field py_float data ''state_action_mass'' of
             Inl e \<Rightarrow> (Inl e, self)
           | Inr mass \<Rightarrow>
               (case load_field py_float data ''state_action_weight'' of
                  Inl e \<Rightarrow> (Inl e, self\<lparr>state_action_mass := Some mass\<rparr>)
                | Inr weight \<Rightarrow>
                    (Inr (), self\<lparr>state_action_mass := Some mass,
                                    state_action_weight := Some weight\<rparr>))))"

section \<open>Notions used to state the properties\<close>

text \<open>
  The keys that \<^verbatim>\<open>NaivePolicy.train\<close> observes, one per label of every sample that is
  not tagged \<^verbatim>\<open>"value"\<close>, with repetitions: the number of occurrences of a key is its
  support.
\<close>

definition training_keys :: "policy_sample list \<Rightarrow> hashable list" where
  "training_keys samples =
     concat (map (\<lambda>(sample_type, features, labels).
                    if sample_type = ''value'' then []
                    else map (state_action_key features) [0..<length labels]) samples)"

text \<open>
  A tabular key is a tuple of numbers; a mapping of an estimator is a dictionary over
  such keys whose values all have the numeric type of that mapping.
\<close>

fun is_number :: "hashable \<Rightarrow> bool" where
  "is_number (Num _) = True"
| "is_number (Tup _) = False"

fun tabular_key :: "hashable \<Rightarrow> bool" where
  "tabular_key (Tup ks) = list_all is_number ks"
| "tabular_key (Num _) = False"

fun is_int :: "pynum \<Rightarrow> bool" where
  "is_int (PInt _) = True"
| "is_int (PFloat _) = False"

fun is_float :: "pynum \<Rightarrow> bool" where
  "is_float (PFloat _) = True"
| "is_float (PInt _) = False"

definition tabular_mapping :: "(pynum \<Rightarrow> bool) \<Rightarrow> pydict \<Rightarrow> bool" where
  "tabular_mapping numeric_type d =
     (distinct (map fst d) \<and> list_all (\<lambda>(k, v). tabular_key k \<and> numeric_type v) d)"

text \<open>
  While \<^verbatim>\<open>NaivePolicy.train\<close> accumulates, its two dictionaries list the same keys in
  the same order.
\<close>

definition aligned :: "pydict \<times> pydict \<Rightarrow> bool" where
  "aligned acc = (map fst (fst acc) = map fst (snd acc) \<and> distinct (map fst (snd acc)))"

text \<open>The support of a key as the weight dictionary records it: absent, or the count as a float.\<close>

definition support :: "hashable list \<Rightarrow> hashable \<Rightarrow> pynum option" where
  "support ks k = (if count_list ks k = 0 then None else Some (PFloat (real (count_list ks k))))"

text \<open>Every key is a tuple of numbers and every value a float.\<close>

definition float_tables :: "pydict \<times> pydict \<Rightarrow> bool" where
  "float_tables acc =
     (list_all (\<lambda>(k, v). tabular_key k \<and> is_float v) (fst acc)
      \<and> list_all (\<lambda>(k, v). tabular_key k \<and> is_float v) (snd acc))"

text \<open>
  The support of a key as the visits dictionary of the value estimator would record it:
  absent, or the count as an int.
\<close>

definition visit_support :: "hashable list \<Rightarrow> hashable \<Rightarrow> pynum option" where
  "visit_support ks k = (if count_list ks k = 0 then None else Some (PInt (int (count_list ks k))))"

text \<open>\<^verbatim>\<open>mass[key] / weight[key]\<close> for the key of action position \<open>i\<close>.\<close>

definition mass_over_weight :: "pydict \<Rightarrow> pydict \<Rightarrow> real list \<Rightarrow> nat \<Rightarrow> pynum" where
  "mass_over_weight mass weight features i =
     PFloat (num_val (the (map_of mass (state_action_key features i)))
             / num_val (the (map_of weight (state_action_key features i))))"

text \<open>
  Training data for the examples: a state seen six times with two actions, a state seen
  five times with one action, and a sample tagged \<^verbatim>\<open>"value"\<close>; and a state seen six
  times whose two labels do not add up to one.
\<close>

definition example_samples :: "policy_sample list" where
  "example_samples =
     replicate 6 (''policy'', [0], [PFloat (1/2), PFloat (1/2)])
     @ replicate 5 (''policy'', [1], [PFloat 1])
     @ [(''value'', [1], [PFloat 1])]"

definition skewed_samples :: "policy_sample list" where
  "skewed_samples = replicate 6 (''policy'', [0], [PFloat (1/2), PFloat (1/4)])"

text \<open>A splitter that trains on every sample, and a backend that scores every row 1.\<close>

definition train_on_everything ::
  "value_sample list \<Rightarrow> real \<Rightarrow> string \<Rightarrow> value_sample list \<times> value_sample list" where
  "train_on_everything samples test_fraction kind = (samples, [])"

definition constant_backend :: "real list list \<Rightarrow> real list" where
  "constant_backend rows = replicate (length rows) 1"

section \<open>Lemmas about the loops of GBDTPolicy\<close>

lemma write_row_fresh:
  "length row = length agent_features + 1 \<Longrightarrow>
   write_row (length agent_features) action agent_features row = action # agent_features"
  by (cases row) (simp_all add: write_row_def)

lemma fold_rows:
  "length tp = n + length acts \<Longrightarrow> \<forall>row \<in> set tp. length row = length af + 1 \<Longrightarrow>
   fold (\<lambda>(i, action) to_predict.
           to_predict[i := write_row (length af) action af (to_predict ! i)])
     (List.enumerate n acts) tp
   = take n tp @ map (\<lambda>a. a # af) acts"
proof (induction acts arbitrary: n tp)
  case Nil
  then show ?case by simp
next
  case (Cons a acts)
  let ?tp = "tp[n := write_row (length af) a af (tp ! n)]"
  have n: "n < length tp" using Cons.prems(1) by simp
  then have row: "length (tp ! n) = length af + 1" using Cons.prems(2) by simp
  have upd: "?tp = tp[n := a # af]" by (simp add: write_row_fresh [OF row])
  have len: "length ?tp = Suc n + length acts" using Cons.prems(1) by simp
  have rows: "\<forall>row \<in> set ?tp. length row = length af + 1"
    unfolding upd using Cons.prems(2) by (auto dest!: set_update_subset_insert [THEN subsetD])
  have "take (Suc n) ?tp = take n tp @ [a # af]"
    unfolding upd using n by (simp add: take_Suc_conv_app_nth)
  with Cons.IH [OF len rows] show ?case by simp
qed

lemma build_to_predict_rows:
  "build_to_predict junk af acts = map (\<lambda>a. a # af) acts"
proof -
  let ?empty = "replicate (length acts) (replicate (length af + 1) junk)"
  have len: "length ?empty = 0 + length acts" by simp
  have rows: "\<forall>row \<in> set ?empty. length row = length af + 1" by simp
  show ?thesis
    unfolding build_to_predict_def Let_def fold_rows [OF len rows] by simp
qed

lemma label_loop_from:
  "fold (\<lambda>(i, mcts_label) (observation_features, observation_labels).
             (observation_features @ [real i # feature_row],
              observation_labels @ [mcts_label]))
       (List.enumerate n label_row) (fs, ls)
   = (fs @ map (\<lambda>i. real i # feature_row) [n..<n + length label_row], ls @ label_row)"
proof (induction label_row arbitrary: n fs ls)
  case Nil
  then show ?case by simp
next
  case (Cons l label_row)
  have "[n..<n + Suc (length label_row)] = n # [Suc n..<n + Suc (length label_row)]"
    by (rule upt_conv_Cons) simp
  then show ?case using Cons.IH [of "Suc n"] by (simp del: upt_Suc)
qed

lemma label_loop_eq:
  "label_loop feature_row label_row acc
   = (fst acc @ map (\<lambda>i. real i # feature_row) [0..<length label_row], snd acc @ label_row)"
  using label_loop_from [of feature_row 0 label_row "fst acc" "snd acc"]
  by (simp add: label_loop_def)

lemma row_loop_eq:
  "\<forall>r \<in> set rs. r < length labels \<Longrightarrow>
   row_loop features labels rs acc
   = Inr (fst acc @ concat (map (\<lambda>n. map (\<lambda>i. real i # features ! n)
                                      [0..<length (labels ! n)]) rs),
          snd acc @ concat (map (\<lambda>n. labels ! n) rs))"
  by (induction rs arbitrary: acc) (simp_all add: label_loop_eq)

section \<open>Lemmas about normalisation\<close>

lemma sum_list_divide: "sum_list (map (\<lambda>x. x / s) xs) = sum_list xs / (s::real)"
  by (induction xs) (simp_all add: add_divide_distrib)

lemma normalize_scores_nonzero:
  assumes "sum_list scores \<noteq> 0"
  shows "normalize_scores scores = Inr (map Finite (map (\<lambda>x. x / sum_list scores) scores))"
  using assms by (simp add: normalize_scores_def np_divide_def)

lemma sum_replicate_uniform: "0 < n \<Longrightarrow> sum_list (map num_val (replicate n (PFloat (1 / real n)))) = 1"
  by (simp add: sum_list_replicate)

section \<open>Lemmas about training and pruning\<close>

lemma add_label_pair:
  "add_label features (i, label) (mass, weight)
   = (AList.update (state_action_key features i)
        (py_add (dict_get mass (state_action_key features i) (PFloat 0)) label) mass,
      AList.update (state_action_key features i)
        (py_add (dict_get weight (state_action_key features i) (PFloat 0)) (PFloat 1)) weight)"
  by (simp add: add_label_def Let_def)

lemma aligned_add_label: "aligned acc \<Longrightarrow> aligned (add_label features entry acc)"
  by (cases entry; cases acc) (simp add: aligned_def add_label_pair update_keys)

lemma aligned_fold_add_label:
  "aligned acc \<Longrightarrow> aligned (fold (add_label features) entries acc)"
  by (induction entries arbitrary: acc) (simp_all add: aligned_add_label)

lemma aligned_accumulate: "aligned acc \<Longrightarrow> aligned (accumulate samples acc)"
  by (induction samples acc rule: accumulate.induct) (simp_all add: aligned_fold_add_label)

lemma support_add_label:
  assumes "\<forall>k. map_of (snd acc) k = support ks k"
  shows "\<forall>k. map_of (snd (add_label features (i, label) acc)) k
             = support (ks @ [state_action_key features i]) k"
proof
  fix k
  obtain mass weight where acc: "acc = (mass, weight)" by (cases acc)
  from assms acc have w: "map_of weight k' = support ks k'" for k' by simp
  show "map_of (snd (add_label features (i, label) acc)) k
        = support (ks @ [state_action_key features i]) k"
    unfolding acc add_label_pair
    by (simp add: update_conv' w dict_get_def support_def)
qed

lemma support_fold_add_label:
  "\<forall>k. map_of (snd acc) k = support ks k \<Longrightarrow>
   \<forall>k. map_of (snd (fold (add_label features) (List.enumerate n labels) acc)) k
       = support (ks @ map (state_action_key features) [n..<n + length labels]) k"
proof (induction labels arbitrary: n acc ks)
  case Nil
  then show ?case by simp
next
  case (Cons l labels)
  have u: "[n..<n + Suc (length labels)] = n # [Suc n..<n + Suc (length labels)]"
    by (rule upt_conv_Cons) simp
  from Cons.IH [OF support_add_label [OF Cons.prems, of features n l], of "Suc n"]
  show ?case using u by (simp del: upt_Suc)
qed

lemma support_accumulate:
  "\<forall>k. map_of (snd acc) k = support ks k \<Longrightarrow>
   \<forall>k. map_of (snd (accumulate samples acc)) k = support (ks @ training_keys samples) k"
proof (induction samples acc arbitrary: ks rule: accumulate.induct)
  case (1 acc)
  then show ?case by (simp add: training_keys_def)
next
  case (2 sample_type features labels rest acc)
  show ?case
  proof (cases "sample_type = ''value''")
    case True
    with 2 show ?thesis by (simp add: training_keys_def)
  next
    case False
    from "2.IH"(2) [OF False support_fold_add_label [OF "2.prems", of features 0 labels]]
    show ?thesis using False by (simp add: training_keys_def)
  qed
qed

lemma dict_delitem_present:
  "k \<in> set (map fst d) \<Longrightarrow> dict_delitem d k = Inr (AList.delete k d)"
proof -
  assume "k \<in> set (map fst d)"
  then have "map_of d k \<noteq> None" by (simp add: map_of_eq_None_iff)
  then show ?thesis by (auto simp: dict_delitem_def)
qed

lemma filter_delete:
  "filter (\<lambda>p. fst p \<notin> set ks) (AList.delete k d) = filter (\<lambda>p. fst p \<notin> set (k # ks)) d"
  by (induction d) auto

lemma delete_keys_aligned:
  "map fst first = map fst second \<Longrightarrow> distinct ks \<Longrightarrow> set ks \<subseteq> set (map fst first) \<Longrightarrow>
   delete_keys ks (first, second)
   = (None, (filter (\<lambda>p. fst p \<notin> set ks) first, filter (\<lambda>p. fst p \<notin> set ks) second))"
proof (induction ks arbitrary: first second)
  case Nil
  then show ?case by simp
next
  case (Cons k ks)
  have k1: "k \<in> set (map fst first)" using Cons.prems(3) by simp
  then have k2: "k \<in> set (map fst second)" using Cons.prems(1) by simp
  have keys: "map fst (AList.delete k first) = map fst (AList.delete k second)"
    by (simp add: AList.delete_keys Cons.prems(1))
  have sub: "set ks \<subseteq> set (map fst (AList.delete k first))"
    using Cons.prems(2,3) by (auto simp: AList.delete_keys)
  have dist: "distinct ks" using Cons.prems(2) by simp
  show ?case
    using Cons.IH [OF keys dist sub]
    by (simp add: dict_delitem_present [OF k1] dict_delitem_present [OF k2] filter_delete)
qed

lemma infrequent_keys_distinct:
  "distinct (map fst d) \<Longrightarrow> distinct (infrequent_keys d)"
  by (simp add: infrequent_keys_def distinct_map_filter)

lemma infrequent_keys_subset: "set (infrequent_keys d) \<subseteq> set (map fst d)"
  by (auto simp: infrequent_keys_def)

lemma infrequent_keys_iff:
  "distinct (map fst d) \<Longrightarrow>
   k \<in> set (infrequent_keys d) \<longleftrightarrow> (\<exists>v. map_of d k = Some v \<and> num_val v \<le> 5)"
  by (auto simp: infrequent_keys_def image_iff)

lemma map_of_filter_keys:
  "map_of (filter (\<lambda>p. fst p \<notin> K) d) k = (if k \<in> K then None else map_of d k)"
  by (induction d) auto

lemma keys_filter:
  "map fst (filter (\<lambda>p. fst p \<notin> K) d) = filter (\<lambda>k. k \<notin> K) (map fst d)"
  by (induction d) auto

lemma NaivePolicy_train_result:
  assumes acc: "accumulate samples ([], []) = (mass, weight)"
  shows "NaivePolicy_train samples self
         = (Inr (), \<lparr>state_action_mass =
                       Some (filter (\<lambda>p. fst p \<notin> set (infrequent_keys weight)) mass),
                     state_action_weight =
                       Some (filter (\<lambda>p. fst p \<notin> set (infrequent_keys weight)) weight)\<rparr>)"
proof -
  have "aligned (accumulate samples ([], []))"
    by (rule aligned_accumulate) (simp add: aligned_def)
  then have al: "map fst mass = map fst weight" and d: "distinct (map fst weight)"
    by (simp_all add: acc aligned_def)
  have sub: "set (infrequent_keys weight) \<subseteq> set (map fst mass)"
    using infrequent_keys_subset [of weight] al by simp
  show ?thesis
    by (simp add: NaivePolicy_train_def acc
        delete_keys_aligned [OF al infrequent_keys_distinct [OF d] sub])
qed

lemma trained_policy:
  "\<exists>mass weight.
     NaivePolicy_train samples self
       = (Inr (), \<lparr>state_action_mass = Some mass, state_action_weight = Some weight\<rparr>)
     \<and> map fst mass = map fst weight
     \<and> distinct (map fst weight)
     \<and> (\<forall>k. map_of weight k
              = (if 6 \<le> count_list (training_keys samples) k
                 then Some (PFloat (real (count_list (training_keys samples) k)))
                 else None))"
proof -
  obtain mass0 weight0 where acc: "accumulate samples ([], []) = (mass0, weight0)"
    by (cases "accumulate samples ([], [])")
  let ?K = "set (infrequent_keys weight0)"
  let ?mass = "filter (\<lambda>p. fst p \<notin> ?K) mass0"
  let ?weight = "filter (\<lambda>p. fst p \<notin> ?K) weight0"
  have "aligned (accumulate samples ([], []))"
    by (rule aligned_accumulate) (simp add: aligned_def)
  then have al: "map fst mass0 = map fst weight0" and d: "distinct (map fst weight0)"
    by (simp_all add: acc aligned_def)
  have "\<forall>k. map_of (snd (accumulate samples ([], []))) k = support ([] @ training_keys samples) k"
    by (rule support_accumulate) (simp add: support_def)
  then have sup: "map_of weight0 k = support (training_keys samples) k" for k
    by (simp add: acc)
  have w: "map_of ?weight k
           = (if 6 \<le> count_list (training_keys samples) k
              then Some (PFloat (real (count_list (training_keys samples) k)))
              else None)" for k
  proof -
    have "map_of ?weight k = (if k \<in> ?K then None else map_of weight0 k)"
      by (rule map_of_filter_keys)
    also have "\<dots> = (if 6 \<le> count_list (training_keys samples) k
                      then Some (PFloat (real (count_list (training_keys samples) k)))
                      else None)"
      by (auto simp: infrequent_keys_iff [OF d] sup support_def)
    finally show ?thesis .
  qed
  have "map fst ?mass = map fst ?weight" by (simp add: keys_filter al)
  moreover have "distinct (map fst ?weight)" using d by (simp add: keys_filter)
  ultimately show ?thesis
    using NaivePolicy_train_result [OF acc, of self] w by blast
qed

lemma map_of_keys: "k \<in> set (map fst d) \<longleftrightarrow> map_of d k \<noteq> None"
  by (simp add: map_of_eq_None_iff)

text \<open>
  The statements after the \<^verbatim>\<open>raise\<close> of \<^verbatim>\<open>NaiveValue.train\<close>, were they reached,
  would prune as the policy trainer does.
\<close>

lemma count_visit_pair:
  "count_visit (features, label) (visits, wins)
   = (AList.update (tuple_of features)
        (py_add (dict_get visits (tuple_of features) (PInt 0)) (PInt 1)) visits,
      AList.update (tuple_of features)
        (py_add (dict_get wins (tuple_of features) (PInt 0)) label) wins)"
  by (simp add: count_visit_def)

lemma aligned_count_visit: "aligned acc \<Longrightarrow> aligned (count_visit sample acc)"
  by (cases sample; cases acc) (simp add: aligned_def count_visit_pair update_keys)

lemma aligned_fold_count_visit: "aligned acc \<Longrightarrow> aligned (fold count_visit train_set acc)"
  by (induction train_set arbitrary: acc) (simp_all add: aligned_count_visit)

lemma visit_support_fold:
  "\<forall>k. map_of (fst acc) k = visit_support ks k \<Longrightarrow>
   \<forall>k. map_of (fst (fold count_visit train_set acc)) k
       = visit_support (ks @ map (\<lambda>sample. tuple_of (fst sample)) train_set) k"
proof (induction train_set arbitrary: acc ks)
  case Nil
  then show ?case by simp
next
  case (Cons sample train_set)
  obtain features label where s: "sample = (features, label)" by (cases sample)
  obtain visits wins where acc: "acc = (visits, wins)" by (cases acc)
  from Cons.prems acc have v: "map_of visits k = visit_support ks k" for k by simp
  have "\<forall>k. map_of (fst (count_visit sample acc)) k = visit_support (ks @ [tuple_of features]) k"
    unfolding s acc count_visit_pair
    by (simp add: update_conv' v dict_get_def visit_support_def)
  from Cons.IH [OF this] show ?case by (simp add: s)
qed

lemma value_pruning_if_reached:
  assumes "split_train_test samples test_fraction ''value'' = (train_set, test_set)"
  shows "\<exists>visits wins.
     NaiveValue_train_after_raise split_train_test samples test_fraction self
       = (Inr (), \<lparr>state_visits = Some visits, state_wins = Some wins\<rparr>)
     \<and> map fst visits = map fst wins
     \<and> (\<forall>k. map_of visits k
              = (if 6 \<le> count_list (map (\<lambda>sample. tuple_of (fst sample)) train_set) k
                 then Some (PInt (int (count_list
                                         (map (\<lambda>sample. tuple_of (fst sample)) train_set) k)))
                 else None))"
proof -
  let ?ks = "map (\<lambda>sample. tuple_of (fst sample)) train_set"
  obtain visits0 wins0 where acc: "fold count_visit train_set ([], []) = (visits0, wins0)"
    by (cases "fold count_visit train_set ([], [])")
  let ?K = "set (infrequent_keys visits0)"
  let ?visits = "filter (\<lambda>p. fst p \<notin> ?K) visits0"
  let ?wins = "filter (\<lambda>p. fst p \<notin> ?K) wins0"
  have "aligned (fold count_visit train_set ([], []))"
    by (rule aligned_fold_count_visit) (simp add: aligned_def)
  then have al: "map fst visits0 = map fst wins0" and d: "distinct (map fst wins0)"
    by (simp_all add: acc aligned_def)
  have dv: "distinct (map fst visits0)" using al d by simp
  have "\<forall>k. map_of (fst (fold count_visit train_set ([], []))) k = visit_support ([] @ ?ks) k"
    by (rule visit_support_fold) (simp add: visit_support_def)
  then have sup: "map_of visits0 k = visit_support ?ks k" for k by (simp add: acc)
  have sub: "set (infrequent_keys visits0) \<subseteq> set (map fst visits0)"
    by (rule infrequent_keys_subset)
  have run: "NaiveValue_train_after_raise split_train_test samples test_fraction self
             = (Inr (), \<lparr>state_visits = Some ?visits, state_wins = Some ?wins\<rparr>)"
    by (simp add: NaiveValue_train_after_raise_def assms acc
        delete_keys_aligned [OF al infrequent_keys_distinct [OF dv] sub])
  have v: "map_of ?visits k
           = (if 6 \<le> count_list ?ks k then Some (PInt (int (count_list ?ks k))) else None)" for k
  proof -
    have "map_of ?visits k = (if k \<in> ?K then None else map_of visits0 k)"
      by (rule map_of_filter_keys)
    also have "\<dots> = (if 6 \<le> count_list ?ks k then Some (PInt (int (count_list ?ks k))) else None)"
      by (auto simp: infrequent_keys_iff [OF dv] sup visit_support_def)
    finally show ?thesis .
  qed
  have "map fst ?visits = map fst ?wins" by (simp add: keys_filter al)
  with run v show ?thesis by blast
qed

section \<open>Lemmas about the tabular policy lookup\<close>

lemma predict_loop_all_present:
  assumes "state_action_mass self = Some mass" and "state_action_weight self = Some weight"
    and "\<forall>i \<in> set (map fst entries).
           \<exists>m w. map_of mass (state_action_key features i) = Some m
                \<and> map_of weight (state_action_key features i) = Some w \<and> num_val w \<noteq> 0"
  shows "NaivePolicy_predict_loop self features entries move_probabilities
         = Inr (move_probabilities
                @ map (mass_over_weight mass weight features) (map fst entries))"
  using assms(3)
proof (induction entries arbitrary: move_probabilities)
  case Nil
  then show ?case by simp
next
  case (Cons entry entries)
  obtain i action where e: "entry = (i, action)" by (cases entry)
  from Cons.prems e obtain m w where
    m: "map_of mass (state_action_key features i) = Some m" and
    w: "map_of weight (state_action_key features i) = Some w" and nz: "num_val w \<noteq> 0"
    by auto
  have rest: "\<forall>i \<in> set (map fst entries).
           \<exists>m w. map_of mass (state_action_key features i) = Some m
                \<and> map_of weight (state_action_key features i) = Some w \<and> num_val w \<noteq> 0"
    using Cons.prems by simp
  show ?case
    unfolding e
    by (simp add: assms(1,2) subscript_def dict_getitem_def m w nz py_truediv_def and_then_def
        Cons.IH [OF rest] mass_over_weight_def)
qed

lemma predict_loop_missing:
  assumes "state_action_mass self = Some mass" and "state_action_weight self = Some weight"
    and same: "\<forall>k. map_of mass k = None \<longleftrightarrow> map_of weight k = None"
    and nz: "\<forall>k w. map_of weight k = Some w \<longrightarrow> num_val w \<noteq> 0"
    and "\<exists>i \<in> set (map fst entries). map_of mass (state_action_key features i) = None"
  shows "NaivePolicy_predict_loop self features entries move_probabilities = Inl KeyError"
  using assms(5)
proof (induction entries arbitrary: move_probabilities)
  case Nil
  then show ?case by simp
next
  case (Cons entry entries)
  obtain i action where e: "entry = (i, action)" by (cases entry)
  show ?case
  proof (cases "map_of mass (state_action_key features i)")
    case None
    then show ?thesis
      unfolding e by (simp add: assms(1) subscript_def dict_getitem_def and_then_def)
  next
    case (Some m)
    with same obtain w where w: "map_of weight (state_action_key features i) = Some w"
      by (metis not_Some_eq option.distinct(1))
    with nz have nzw: "num_val w \<noteq> 0" by blast
    have "\<exists>i \<in> set (map fst entries). map_of mass (state_action_key features i) = None"
      using Cons.prems Some e by auto
    from Cons.IH [OF this] show ?thesis
      unfolding e
      by (simp add: assms(1,2) subscript_def dict_getitem_def Some w nzw py_truediv_def
          and_then_def)
  qed
qed

lemma trained_policy_predict:
  assumes "allowable_actions \<noteq> []"
  shows "\<exists>mass weight.
     NaivePolicy_train samples self
       = (Inr (), \<lparr>state_action_mass = Some mass, state_action_weight = Some weight\<rparr>)
     \<and> set (map fst mass) = set (map fst weight)
     \<and> ((\<exists>i < length allowable_actions. state_action_key features i \<notin> set (map fst mass))
          \<longrightarrow> NaivePolicy_predict
                \<lparr>state_action_mass = Some mass, state_action_weight = Some weight\<rparr>
                features allowable_actions
              = Inr (replicate (length allowable_actions)
                       (PFloat (1 / real (length allowable_actions)))))
     \<and> ((\<forall>i < length allowable_actions. state_action_key features i \<in> set (map fst mass))
          \<longrightarrow> NaivePolicy_predict
                \<lparr>state_action_mass = Some mass, state_action_weight = Some weight\<rparr>
                features allowable_actions
              = Inr (map (mass_over_weight mass weight features)
                       [0..<length allowable_actions]))"
proof -
  obtain mass weight where
    t: "NaivePolicy_train samples self
          = (Inr (), \<lparr>state_action_mass = Some mass, state_action_weight = Some weight\<rparr>)"
    and keys: "map fst mass = map fst weight"
    and w: "\<And>k. map_of weight k
              = (if 6 \<le> count_list (training_keys samples) k
                 then Some (PFloat (real (count_list (training_keys samples) k)))
                 else None)"
    using trained_policy [of samples self] by blast
  let ?self = "\<lparr>state_action_mass = Some mass, state_action_weight = Some weight\<rparr>"
  let ?A = "length allowable_actions"
  have sm: "state_action_mass ?self = Some mass" and sw: "state_action_weight ?self = Some weight"
    by simp_all
  have same: "\<forall>k. map_of mass k = None \<longleftrightarrow> map_of weight k = None"
    using keys by (metis map_of_keys)
  have nz: "\<forall>k v. map_of weight k = Some v \<longrightarrow> num_val v \<noteq> 0"
    unfolding w by (auto split: if_splits)
  have idx: "map fst (List.enumerate 0 allowable_actions) = [0..<?A]" by simp
  have miss: "NaivePolicy_predict ?self features allowable_actions
              = Inr (replicate ?A (PFloat (1 / real ?A)))"
    if "\<exists>i < ?A. state_action_key features i \<notin> set (map fst mass)"
  proof -
    from that have "\<exists>i \<in> set (map fst (List.enumerate 0 allowable_actions)).
                      map_of mass (state_action_key features i) = None"
      unfolding idx map_of_keys by auto
    from predict_loop_missing [OF sm sw same nz this]
    show ?thesis using assms by (simp add: NaivePolicy_predict_def py_truediv_def and_then_def)
  qed
  have hit: "NaivePolicy_predict ?self features allowable_actions
             = Inr (map (mass_over_weight mass weight features) [0..<?A])"
    if "\<forall>i < ?A. state_action_key features i \<in> set (map fst mass)"
  proof -
    have "\<forall>i \<in> set (map fst (List.enumerate 0 allowable_actions)).
           \<exists>m w. map_of mass (state_action_key features i) = Some m
                \<and> map_of weight (state_action_key features i) = Some w \<and> num_val w \<noteq> 0"
      unfolding idx
    proof
      fix i assume "i \<in> set [0..<?A]"
      with that have "state_action_key features i \<in> set (map fst mass)" by simp
      then have "map_of mass (state_action_key features i) \<noteq> None"
        by (rule map_of_keys [THEN iffD1])
      with same nz show "\<exists>m w. map_of mass (state_action_key features i) = Some m
                \<and> map_of weight (state_action_key features i) = Some w \<and> num_val w \<noteq> 0"
        by (metis not_Some_eq)
    qed
    from predict_loop_all_present [OF sm sw this, of "[]"]
    show ?thesis by (simp add: NaivePolicy_predict_def)
  qed
  have "set (map fst mass) = set (map fst weight)" using keys by simp
  with t miss hit show ?thesis by blast
qed

text \<open>The example training set, trained.\<close>

lemmas train_eval =
  NaivePolicy_train_def add_label_def state_action_key_def tuple_of_def dict_get_def
  infrequent_keys_def dict_delitem_def Let_def example_samples_def

lemmas example_eval =
  NaivePolicy_predict_def subscript_def dict_getitem_def and_then_def py_truediv_def
  state_action_key_def tuple_of_def

lemma example_trained:
  "NaivePolicy_train example_samples \<lparr>state_action_mass = None, state_action_weight = None\<rparr>
   = (Inr (), \<lparr>state_action_mass = Some [(Tup [Num 0, Num 0], PFloat 3), (Tup [Num 0, Num 1], PFloat 3)],
                state_action_weight = Some [(Tup [Num 0, Num 0], PFloat 6), (Tup [Num 0, Num 1], PFloat 6)]\<rparr>)"
  by (simp add: train_eval eval_nat_numeral)

section \<open>Lemmas about saving and loading\<close>

lemma update_fresh: "k \<notin> set (map fst d) \<Longrightarrow> AList.update k v d = d @ [(k, v)]"
  by (induction d) auto

lemma key_elements_numbers:
  "list_all is_number ks \<Longrightarrow> key_elements (map key_json ks) = Inr ks"
proof (induction ks)
  case Nil
  then show ?case by simp
next
  case (Cons k ks)
  then show ?case by (cases k) (simp_all add: and_then_def)
qed

lemma py_tuple_key_json: "tabular_key k \<Longrightarrow> py_tuple (key_json k) = Inr k"
  by (cases k) (simp_all add: key_elements_numbers and_then_def)

lemma py_int_num_json: "is_int v \<Longrightarrow> py_int (num_json v) = Inr v"
  by (cases v) simp_all

lemma py_float_num_json: "is_float v \<Longrightarrow> py_float (num_json v) = Inr v"
  by (cases v) simp_all

lemma load_items_saved:
  assumes conv: "\<And>v. numeric_type v \<Longrightarrow> convert (num_json v) = Inr v"
  shows "distinct (map fst (acc @ d)) \<Longrightarrow>
         list_all (\<lambda>(k, v). tabular_key k \<and> numeric_type v) d \<Longrightarrow>
         load_items convert (map (\<lambda>(k, v). JArray [key_json k, num_json v]) d) acc
         = Inr (acc @ d)"
proof (induction d arbitrary: acc)
  case Nil
  then show ?case by simp
next
  case (Cons p d)
  obtain k v where p: "p = (k, v)" by (cases p)
  from Cons.prems(2) p have k: "tabular_key k" and v: "numeric_type v"
    and rest: "list_all (\<lambda>(k, v). tabular_key k \<and> numeric_type v) d" by simp_all
  have fresh: "k \<notin> set (map fst acc)" using Cons.prems(1) p by auto
  have dist: "distinct (map fst ((acc @ [(k, v)]) @ d))" using Cons.prems(1) p by simp
  show ?case
    unfolding p
    using Cons.IH [OF dist rest]
    by (simp add: and_then_def py_tuple_key_json [OF k] conv [OF v] update_fresh [OF fresh])
qed

lemma load_field_saved:
  assumes conv: "\<And>v. numeric_type v \<Longrightarrow> convert (num_json v) = Inr v"
    and "tabular_mapping numeric_type d" and "map_of data field = Some (items_json d)"
  shows "load_field convert data field = Inr d"
  using assms(2,3) load_items_saved [of numeric_type convert "[]" d, OF conv]
  by (simp add: load_field_def items_json_def tabular_mapping_def)

text \<open>
  The estimators that \<^verbatim>\<open>train\<close> and \<^verbatim>\<open>load\<close> produce hold tabular mappings of the
  numeric type that \<^verbatim>\<open>load\<close> restores: floats for the policy, ints for the value
  estimator.
\<close>

lemma list_all_update:
  "list_all P d \<Longrightarrow> P (k, v) \<Longrightarrow> list_all P (AList.update k v d)"
  by (induction d) auto

lemma tabular_state_action_key: "tabular_key (state_action_key features i)"
  by (simp add: state_action_key_def tuple_of_def list_all_iff)

lemma is_float_dict_get:
  "list_all (\<lambda>(k, v). tabular_key k \<and> is_float v) d \<Longrightarrow> is_float (dict_get d k (PFloat 0))"
proof -
  assume a: "list_all (\<lambda>(k, v). tabular_key k \<and> is_float v) d"
  show ?thesis
  proof (cases "map_of d k")
    case None
    then show ?thesis by (simp add: dict_get_def)
  next
    case (Some v)
    then have "(k, v) \<in> set d" by (rule map_of_SomeD)
    with a have "is_float v" by (auto simp: list_all_iff)
    with Some show ?thesis by (simp add: dict_get_def)
  qed
qed

lemma is_float_py_add: "is_float a \<Longrightarrow> is_float (py_add a b)"
  by (cases a; cases b) simp_all

lemma float_tables_add_label: "float_tables acc \<Longrightarrow> float_tables (add_label features entry acc)"
  by (cases entry; cases acc)
    (simp add: float_tables_def add_label_pair list_all_update tabular_state_action_key
      is_float_dict_get is_float_py_add)

lemma float_tables_fold:
  "float_tables acc \<Longrightarrow> float_tables (fold (add_label features) entries acc)"
  by (induction entries arbitrary: acc) (simp_all add: float_tables_add_label)

lemma float_tables_accumulate: "float_tables acc \<Longrightarrow> float_tables (accumulate samples acc)"
  by (induction samples acc rule: accumulate.induct) (simp_all add: float_tables_fold)

lemma list_all_filter: "list_all P d \<Longrightarrow> list_all P (filter Q d)"
  by (induction d) auto

lemma trained_policy_is_tabular:
  "\<exists>mass weight.
     NaivePolicy_train samples self
       = (Inr (), \<lparr>state_action_mass = Some mass, state_action_weight = Some weight\<rparr>)
     \<and> tabular_mapping is_float mass \<and> tabular_mapping is_float weight"
proof -
  obtain mass0 weight0 where acc: "accumulate samples ([], []) = (mass0, weight0)"
    by (cases "accumulate samples ([], [])")
  let ?K = "set (infrequent_keys weight0)"
  have "aligned (accumulate samples ([], []))"
    by (rule aligned_accumulate) (simp add: aligned_def)
  then have al: "map fst mass0 = map fst weight0" and d: "distinct (map fst weight0)"
    by (simp_all add: acc aligned_def)
  have "float_tables (accumulate samples ([], []))"
    by (rule float_tables_accumulate) (simp add: float_tables_def)
  then have f: "list_all (\<lambda>(k, v). tabular_key k \<and> is_float v) mass0"
    "list_all (\<lambda>(k, v). tabular_key k \<and> is_float v) weight0"
    by (simp_all add: acc float_tables_def)
  have "tabular_mapping is_float (filter (\<lambda>p. fst p \<notin> ?K) mass0)"
    using d f(1) by (simp add: tabular_mapping_def keys_filter al list_all_filter)
  moreover have "tabular_mapping is_float (filter (\<lambda>p. fst p \<notin> ?K) weight0)"
    using d f(2) by (simp add: tabular_mapping_def keys_filter list_all_filter)
  ultimately show ?thesis using NaivePolicy_train_result [OF acc, of self] by blast
qed

lemma key_elements_are_numbers: "key_elements xs = Inr ks \<Longrightarrow> list_all is_number ks"
proof (induction xs arbitrary: ks)
  case Nil
  then show ?case by simp
next
  case (Cons x xs)
  then show ?case
    by (cases x) (auto simp: and_then_def split: sum.splits)
qed

lemma py_tuple_is_tabular: "py_tuple j = Inr k \<Longrightarrow> tabular_key k"
  by (cases j) (auto simp: and_then_def split: sum.splits dest: key_elements_are_numbers)

lemma py_int_is_int: "py_int j = Inr v \<Longrightarrow> is_int v"
  by (cases j) auto

lemma py_float_is_float: "py_float j = Inr v \<Longrightarrow> is_float v"
  by (cases j) auto

lemma load_items_tabular:
  assumes conv: "\<And>j v. convert j = Inr v \<Longrightarrow> numeric_type v"
  shows "load_items convert pairs acc = Inr d \<Longrightarrow> tabular_mapping numeric_type acc \<Longrightarrow>
         tabular_mapping numeric_type d"
proof (induction pairs arbitrary: acc)
  case Nil
  then show ?case by simp
next
  case (Cons item pairs)
  from Cons.prems(1) obtain key val k v where
    "unpack_pair item = Inr (key, val)" and k: "py_tuple key = Inr k"
    and v: "convert val = Inr v"
    and rest: "load_items convert pairs (AList.update k v acc) = Inr d"
    by (auto simp: and_then_def split: sum.splits)
  have "tabular_mapping numeric_type (AList.update k v acc)"
    using Cons.prems(2) py_tuple_is_tabular [OF k] conv [OF v]
    by (simp add: tabular_mapping_def distinct_update list_all_update)
  from Cons.IH [OF rest this] show ?case .
qed

lemma load_field_tabular:
  assumes conv: "\<And>j v. convert j = Inr v \<Longrightarrow> numeric_type v"
    and "load_field convert data field = Inr d"
  shows "tabular_mapping numeric_type d"
proof -
  from assms(2) obtain pairs where "load_items convert pairs [] = Inr d"
    by (auto simp: load_field_def split: option.splits json.splits)
  from load_items_tabular [of convert numeric_type, OF conv this] show ?thesis
    by (simp add: tabular_mapping_def)
qed

lemma loaded_value_is_tabular:
  assumes "NaiveValue_load model_path fs self = (Inr (), self')"
  shows "\<exists>visits wins. state_visits self' = Some visits \<and> state_wins self' = Some wins
           \<and> tabular_mapping is_int visits \<and> tabular_mapping is_int wins"
proof -
  from assms obtain data visits wins where
    "load_field py_int data ''state_visits'' = Inr visits"
    "load_field py_int data ''state_wins'' = Inr wins"
    "self' = self\<lparr>state_visits := Some visits, state_wins := Some wins\<rparr>"
    by (auto simp: NaiveValue_load_def split: option.splits sum.splits)
  then show ?thesis
    using load_field_tabular [of py_int is_int, OF py_int_is_int] by auto
qed

lemma loaded_policy_is_tabular:
  assumes "NaivePolicy_load model_path fs self = (Inr (), self')"
  shows "\<exists>mass weight. state_action_mass self' = Some mass
           \<and> state_action_weight self' = Some weight
           \<and> tabular_mapping is_float mass \<and> tabular_mapping is_float weight"
proof -
  from assms obtain data mass weight where
    "load_field py_float data ''state_action_mass'' = Inr mass"
    "load_field py_float data ''state_action_weight'' = Inr weight"
    "self' = self\<lparr>state_action_mass := Some mass, state_action_weight := Some weight\<rparr>"
    by (auto simp: NaivePolicy_load_def split: option.splits sum.splits)
  then show ?thesis
    using load_field_tabular [of py_float is_float, OF py_float_is_float] by auto
qed

section \<open>The claims about GBDTPolicy\<close>

text \<open>
  C3, as amended. Normalising an all-zero score vector raises nothing: the division of
  line 127 is numpy's, and it returns a vector of the same length whose every element
  is \<^verbatim>\<open>nan\<close>.
\<close>

theorem normalize_all_zero_returns_nan:
  assumes "\<forall>x \<in> set scores. x = 0"
  shows "normalize_scores scores = Inr (replicate (length scores) NaN)"
proof -
  have s: "sum_list scores = 0" using assms by (induction scores) auto
  have "map (\<lambda>x. np_divide x 0) scores = replicate (length scores) NaN"
    using assms by (induction scores) (auto simp: np_divide_def)
  with s show ?thesis by (simp add: normalize_scores_def)
qed

theorem normalize_all_zero_returns_nan_witness:
  "normalize_scores [0, 0, 0] = Inr [NaN, NaN, NaN]"
  using normalize_all_zero_returns_nan [of "[0, 0, 0]"] by (simp add: numeral_3_eq_3)

text \<open>
  C3 as stated fails: on the scores \<^verbatim>\<open>[0, 0]\<close> the normalisation returns
  \<^verbatim>\<open>[nan, nan]\<close> and raises no division error.
\<close>

theorem normalize_all_zero_counterexample:
  "normalize_scores [0, 0] = Inr [NaN, NaN] \<and> normalize_scores [0, 0] \<noteq> Inl ZeroDivisionError"
  by (simp add: normalize_scores_def np_divide_def)

text \<open>
  C5. For an agent feature vector of length F and more than one allowable action, the
  batch built for the backend has exactly one row per action, each of length F+1, and
  row \<open>i\<close> is the raw action value at position \<open>i\<close> followed by the agent's
  features, whatever the allocated array held before.
\<close>

theorem expand_inference_rows:
  assumes "1 < length allowable_actions"
  shows "\<exists>rows. backend_calls (GBDTPolicy_predict treelite_predict junk agent_features
                     allowable_actions) = [rows]
           \<and> rows = build_to_predict junk agent_features allowable_actions
           \<and> length rows = length allowable_actions
           \<and> (\<forall>i < length allowable_actions.
                 rows ! i = allowable_actions ! i # agent_features
                 \<and> length (rows ! i) = length agent_features + 1)"
  using assms by (simp add: GBDTPolicy_predict_def Let_def build_to_predict_rows)

theorem expand_inference_rows_witness:
  "1 < length [0, 2 :: real]
   \<and> backend_calls (GBDTPolicy_predict (\<lambda>rows. [1, 3]) 9 [3, 4] [0, 2])
       = [[[0, 3, 4], [2, 3, 4]]]"
  using expand_inference_rows [of "[0, 2]" "\<lambda>rows. [1, 3]" 9 "[3, 4]"]
  by (simp add: build_to_predict_rows)

text \<open>
  C6. For a features batch of N vectors and N label vectors of any lengths, the training
  rows come out state by state and, within a state, by increasing action index: the row
  for state \<open>n\<close> and action \<open>i\<close> is \<open>i\<close> followed by the features of \<open>n\<close>, its
  label is the \<open>i\<close>-th label of \<open>n\<close>, and the number of rows is the sum of the label
  counts, so that a state without labels contributes nothing. The result is a function
  of the two arguments alone.
\<close>

theorem expand_training_rows:
  assumes "length labels = length features"
  shows "extract_policy_observations features labels
         = Inr (concat (map (\<lambda>n. map (\<lambda>i. real i # features ! n) [0..<length (labels ! n)])
                         [0..<length features]),
                concat labels)
         \<and> length (concat (map (\<lambda>n. map (\<lambda>i. real i # features ! n) [0..<length (labels ! n)])
                         [0..<length features])) = sum_list (map length labels)"
proof -
  have a: "concat (map (\<lambda>n. labels ! n) [0..<length features]) = concat labels"
    unfolding assms [symmetric] by (simp add: map_nth)
  have b: "\<forall>r \<in> set [0..<length features]. r < length labels" using assms by simp
  have c: "map (\<lambda>n. length (labels ! n)) [0..<length labels] = map length labels"
    by (rule nth_equalityI) simp_all
  show ?thesis
    unfolding extract_policy_observations_def row_loop_eq [OF b]
    using a c assms by (simp add: length_concat comp_def)
qed

theorem expand_training_rows_witness:
  "length [[1/5, 4/5], [1/2, 1/2 :: real]] = length [[0, 1], [1, 0 :: real]]
   \<and> extract_policy_observations [[0, 1], [1, 0]] [[1/5, 4/5], [1/2, 1/2]]
       = Inr ([[0, 0, 1], [1, 0, 1], [0, 1, 0], [1, 1, 0]], [1/5, 4/5, 1/2, 1/2])"
  using expand_training_rows [of "[[1/5, 4/5], [1/2, 1/2]]" "[[0, 1], [1, 0]]"]
  by (simp add: upt_rec)

text \<open>
  C7. With exactly one allowable action, \<^verbatim>\<open>GBDTPolicy.predict\<close> returns \<^verbatim>\<open>[1.0]\<close>
  for every backend and every feature vector, and hands no batch to the backend.
\<close>

theorem gbdt_single_action_short_circuit:
  "GBDTPolicy_predict treelite_predict junk agent_features [action]
   = \<lparr>backend_calls = [], returned = Inr [Finite 1]\<rparr>"
  by (simp add: GBDTPolicy_predict_def)

section \<open>The claims about the policy estimators together\<close>

text \<open>
  C1, as amended. For every non-empty sequence of A allowable actions:
  \<^verbatim>\<open>UniformPolicy.predict\<close> returns A values that sum to 1;
  \<^verbatim>\<open>GBDTPolicy.predict\<close>, with a backend that returns one score per row, returns A
  values, and they sum to 1 when A is 1 or the backend's scores have a non-zero sum;
  \<^verbatim>\<open>NaivePolicy.predict\<close> of a trained estimator returns A values, and they sum to 1
  when some key is missing (the uniform fallback). When all keys are present the values
  are the stored ratios, not renormalised, and nothing is said about their sum.
\<close>

theorem policy_predict_length_and_sum:
  assumes "allowable_actions \<noteq> []"
  shows "(\<exists>ps. UniformPolicy_predict uniform_features allowable_actions = Probabilities ps
            \<and> length ps = length allowable_actions \<and> sum_list (map num_val ps) = 1)
       \<and> ((\<forall>rows. length (treelite_predict rows) = length rows) \<longrightarrow>
            (\<exists>ps. returned (GBDTPolicy_predict treelite_predict junk agent_features
                              allowable_actions) = Inr ps
                \<and> length ps = length allowable_actions
                \<and> (length allowable_actions = 1
                      \<or> sum_list (treelite_predict
                                    (build_to_predict junk agent_features allowable_actions)) \<noteq> 0
                    \<longrightarrow> (\<exists>xs. ps = map Finite xs \<and> sum_list xs = 1))))
       \<and> (\<exists>mass weight ps.
            NaivePolicy_train samples self
              = (Inr (), \<lparr>state_action_mass = Some mass, state_action_weight = Some weight\<rparr>)
            \<and> NaivePolicy_predict
                \<lparr>state_action_mass = Some mass, state_action_weight = Some weight\<rparr>
                features allowable_actions = Inr ps
            \<and> length ps = length allowable_actions
            \<and> ((\<exists>i < length allowable_actions.
                    state_action_key features i \<notin> set (map fst mass))
                 \<longrightarrow> sum_list (map num_val ps) = 1))"
proof -
  let ?A = "length allowable_actions"
  have pos: "0 < ?A" using assms by simp
  have uniform: "\<exists>ps. UniformPolicy_predict uniform_features allowable_actions = Probabilities ps
            \<and> length ps = ?A \<and> sum_list (map num_val ps) = 1"
    using assms sum_replicate_uniform [OF pos] by (simp add: UniformPolicy_predict_def)
  have gbdt: "\<exists>ps. returned (GBDTPolicy_predict treelite_predict junk agent_features
                              allowable_actions) = Inr ps
                \<and> length ps = ?A
                \<and> (?A = 1 \<or> sum_list (treelite_predict
                                    (build_to_predict junk agent_features allowable_actions)) \<noteq> 0
                    \<longrightarrow> (\<exists>xs. ps = map Finite xs \<and> sum_list xs = 1))"
    if one_per_row: "\<forall>rows. length (treelite_predict rows) = length rows"
  proof (cases "?A = 1")
    case True
    have "\<exists>xs. [Finite 1] = map Finite xs \<and> sum_list xs = (1::real)"
      by (rule exI [of _ "[1]"]) simp
    then show ?thesis using True by (simp add: GBDTPolicy_predict_def)
  next
    case False
    let ?scores = "treelite_predict (build_to_predict junk agent_features allowable_actions)"
    have len: "length ?scores = ?A" using one_per_row by (simp add: build_to_predict_rows)
    have r: "returned (GBDTPolicy_predict treelite_predict junk agent_features allowable_actions)
             = normalize_scores ?scores"
      using False by (simp add: GBDTPolicy_predict_def Let_def)
    show ?thesis
    proof (cases "sum_list ?scores = 0")
      case True
      then show ?thesis using False r len by (simp add: normalize_scores_def)
    next
      case nz: False
      let ?xs = "map (\<lambda>x. x / sum_list ?scores) ?scores"
      have "returned (GBDTPolicy_predict treelite_predict junk agent_features
                        allowable_actions) = Inr (map Finite ?xs)"
        unfolding r by (rule normalize_scores_nonzero [OF nz])
      moreover have "length (map Finite ?xs) = ?A" using len by simp
      moreover have "\<exists>xs. map Finite ?xs = map Finite xs \<and> sum_list xs = 1"
        by (rule exI [of _ ?xs]) (simp add: sum_list_divide nz)
      ultimately show ?thesis by blast
    qed
  qed
  obtain mass weight where
    t: "NaivePolicy_train samples self
          = (Inr (), \<lparr>state_action_mass = Some mass, state_action_weight = Some weight\<rparr>)"
    and miss: "(\<exists>i < ?A. state_action_key features i \<notin> set (map fst mass))
          \<longrightarrow> NaivePolicy_predict
                \<lparr>state_action_mass = Some mass, state_action_weight = Some weight\<rparr>
                features allowable_actions
              = Inr (replicate ?A (PFloat (1 / real ?A)))"
    and hit: "(\<forall>i < ?A. state_action_key features i \<in> set (map fst mass))
          \<longrightarrow> NaivePolicy_predict
                \<lparr>state_action_mass = Some mass, state_action_weight = Some weight\<rparr>
                features allowable_actions
              = Inr (map (mass_over_weight mass weight features) [0..<?A])"
    using trained_policy_predict [OF assms, of samples self features] by blast
  have naive: "\<exists>ps. NaivePolicy_predict
                \<lparr>state_action_mass = Some mass, state_action_weight = Some weight\<rparr>
                features allowable_actions = Inr ps
            \<and> length ps = ?A
            \<and> ((\<exists>i < ?A. state_action_key features i \<notin> set (map fst mass))
                 \<longrightarrow> sum_list (map num_val ps) = 1)"
  proof (cases "\<exists>i < ?A. state_action_key features i \<notin> set (map fst mass)")
    case True
    with miss show ?thesis using sum_replicate_uniform [OF pos] by simp
  next
    case False
    with hit show ?thesis by auto
  qed
  from uniform gbdt naive t show ?thesis by blast
qed

theorem policy_predict_length_and_sum_witness:
  "(\<forall>rows. length (constant_backend rows) = length rows)
   \<and> sum_list (constant_backend (build_to_predict 0 [3, 4] [7, 8])) = 2
   \<and> state_action_key [1] 0
       \<notin> set (map fst [(Tup [Num 0, Num 0], PFloat 3), (Tup [Num 0, Num 1], PFloat 3)])
   \<and> UniformPolicy_predict () [7, 8 :: real] = Probabilities [PFloat (1/2), PFloat (1/2)]
   \<and> returned (GBDTPolicy_predict constant_backend 0 [3, 4] [7, 8])
       = Inr [Finite (1/2), Finite (1/2)]
   \<and> NaivePolicy_predict
       (snd (NaivePolicy_train example_samples
               \<lparr>state_action_mass = None, state_action_weight = None\<rparr>))
       [1] [7, 8 :: real]
     = Inr [PFloat (1/2), PFloat (1/2)]"
proof -
  have ne: "[7, 8 :: real] \<noteq> []" by simp
  note claim = policy_predict_length_and_sum [OF ne, of "()" constant_backend
      0 "[3, 4]" example_samples "\<lparr>state_action_mass = None, state_action_weight = None\<rparr>" "[1]"]
  have u: "UniformPolicy_predict () [7, 8 :: real] = Probabilities [PFloat (1/2), PFloat (1/2)]"
    by (simp add: UniformPolicy_predict_def Let_def eval_nat_numeral)
  have g: "returned (GBDTPolicy_predict constant_backend 0 [3, 4] [7, 8])
       = Inr [Finite (1/2), Finite (1/2)]"
    by (simp add: GBDTPolicy_predict_def build_to_predict_rows normalize_scores_def
        np_divide_def constant_backend_def eval_nat_numeral)
  have n: "NaivePolicy_predict
       (snd (NaivePolicy_train example_samples
               \<lparr>state_action_mass = None, state_action_weight = None\<rparr>))
       [1] [7, 8 :: real]
     = Inr [PFloat (1/2), PFloat (1/2)]"
    by (simp add: example_trained example_eval eval_nat_numeral)
  have h: "\<forall>rows. length (constant_backend rows) = length rows"
    "sum_list (constant_backend (build_to_predict 0 [3, 4] [7, 8])) = 2"
    "state_action_key [1] 0
       \<notin> set (map fst [(Tup [Num 0, Num 0], PFloat 3), (Tup [Num 0, Num 1], PFloat 3)])"
    by (simp_all add: constant_backend_def build_to_predict_rows state_action_key_def tuple_of_def)
  from claim u g n h show ?thesis by simp
qed

text \<open>
  C1 as stated fails: trained six times on a state whose two labels are 1/2 and 1/4,
  the tabular policy answers two allowable actions with 1/2 and 1/4, which sum to 3/4.
\<close>

theorem policy_predict_sum_counterexample:
  "NaivePolicy_predict
     (snd (NaivePolicy_train skewed_samples
             \<lparr>state_action_mass = None, state_action_weight = None\<rparr>))
     [0] [7, 8 :: nat]
   = Inr [PFloat (1/2), PFloat (1/4)]
   \<and> length [7, 8 :: nat] = 2
   \<and> sum_list (map num_val [PFloat (1/2), PFloat (1/4)]) = 3/4"
  by (simp add: NaivePolicy_train_def add_label_def state_action_key_def tuple_of_def dict_get_def
  infrequent_keys_def dict_delitem_def Let_def skewed_samples_def eval_nat_numeral
   NaivePolicy_predict_def subscript_def dict_getitem_def and_then_def py_truediv_def)

section \<open>The claims about NaivePolicy\<close>

text \<open>
  C4. For every estimator that \<^verbatim>\<open>NaivePolicy.train\<close> has trained (training never
  raises), every feature vector and every non-empty sequence of A allowable actions: if
  the key of some action position is missing, \<^verbatim>\<open>predict\<close> returns the uniform
  distribution, A times 1/A; if the keys of all A positions are present, it returns
  mass over weight for each position, as stored and not renormalised.
\<close>

theorem tabular_policy_predict_all_or_nothing:
  assumes "allowable_actions \<noteq> []"
  shows "\<exists>mass weight.
     NaivePolicy_train samples self
       = (Inr (), \<lparr>state_action_mass = Some mass, state_action_weight = Some weight\<rparr>)
     \<and> set (map fst mass) = set (map fst weight)
     \<and> ((\<exists>i < length allowable_actions. state_action_key features i \<notin> set (map fst mass))
          \<longrightarrow> NaivePolicy_predict
                \<lparr>state_action_mass = Some mass, state_action_weight = Some weight\<rparr>
                features allowable_actions
              = Inr (replicate (length allowable_actions)
                       (PFloat (1 / real (length allowable_actions)))))
     \<and> ((\<forall>i < length allowable_actions. state_action_key features i \<in> set (map fst mass))
          \<longrightarrow> NaivePolicy_predict
                \<lparr>state_action_mass = Some mass, state_action_weight = Some weight\<rparr>
                features allowable_actions
              = Inr (map (mass_over_weight mass weight features)
                       [0..<length allowable_actions]))"
  using assms by (rule trained_policy_predict)

theorem tabular_policy_predict_witness:
  "NaivePolicy_predict
     (snd (NaivePolicy_train example_samples
             \<lparr>state_action_mass = None, state_action_weight = None\<rparr>))
     [0] [7, 8 :: nat]
   = Inr [PFloat (1/2), PFloat (1/2)]
   \<and> NaivePolicy_predict
     (snd (NaivePolicy_train example_samples
             \<lparr>state_action_mass = None, state_action_weight = None\<rparr>))
     [0] [7, 8, 9 :: nat]
   = Inr [PFloat (1/3), PFloat (1/3), PFloat (1/3)]"
proof -
  have ne: "[7, 8 :: nat] \<noteq> []" by simp
  from tabular_policy_predict_all_or_nothing [OF ne, of example_samples
      "\<lparr>state_action_mass = None, state_action_weight = None\<rparr>" "[0]"]
  obtain mass weight where
    t: "NaivePolicy_train example_samples \<lparr>state_action_mass = None, state_action_weight = None\<rparr>
        = (Inr (), \<lparr>state_action_mass = Some mass, state_action_weight = Some weight\<rparr>)"
    and hit: "(\<forall>i < length [7, 8 :: nat]. state_action_key [0] i \<in> set (map fst mass))
          \<longrightarrow> NaivePolicy_predict
                \<lparr>state_action_mass = Some mass, state_action_weight = Some weight\<rparr>
                [0] [7, 8 :: nat]
              = Inr (map (mass_over_weight mass weight [0]) [0..<length [7, 8 :: nat]])"
    by blast
  from t have m: "mass = [(Tup [Num 0, Num 0], PFloat 3), (Tup [Num 0, Num 1], PFloat 3)]"
    and w: "weight = [(Tup [Num 0, Num 0], PFloat 6), (Tup [Num 0, Num 1], PFloat 6)]"
    by (simp_all add: example_trained)
  have "\<forall>i < length [7, 8 :: nat]. state_action_key [0] i \<in> set (map fst mass)"
    by (simp add: m state_action_key_def tuple_of_def less_Suc_eq)
  with hit have "NaivePolicy_predict
                \<lparr>state_action_mass = Some mass, state_action_weight = Some weight\<rparr>
                [0] [7, 8 :: nat]
              = Inr (map (mass_over_weight mass weight [0]) [0..<length [7, 8 :: nat]])"
    by blast
  then have first: "NaivePolicy_predict
     (snd (NaivePolicy_train example_samples
             \<lparr>state_action_mass = None, state_action_weight = None\<rparr>))
     [0] [7, 8 :: nat] = Inr [PFloat (1/2), PFloat (1/2)]"
    unfolding t by (simp add: m w mass_over_weight_def state_action_key_def tuple_of_def
        eval_nat_numeral)
  have ne3: "[7, 8, 9 :: nat] \<noteq> []" by simp
  from tabular_policy_predict_all_or_nothing [OF ne3, of example_samples
      "\<lparr>state_action_mass = None, state_action_weight = None\<rparr>" "[0]"]
  obtain mass' weight' where
    t': "NaivePolicy_train example_samples \<lparr>state_action_mass = None, state_action_weight = None\<rparr>
        = (Inr (), \<lparr>state_action_mass = Some mass', state_action_weight = Some weight'\<rparr>)"
    and miss: "(\<exists>i < length [7, 8, 9 :: nat]. state_action_key [0] i \<notin> set (map fst mass'))
          \<longrightarrow> NaivePolicy_predict
                \<lparr>state_action_mass = Some mass', state_action_weight = Some weight'\<rparr>
                [0] [7, 8, 9 :: nat]
              = Inr (replicate (length [7, 8, 9 :: nat])
                       (PFloat (1 / real (length [7, 8, 9 :: nat]))))"
    by blast
  from t' have m': "mass' = [(Tup [Num 0, Num 0], PFloat 3), (Tup [Num 0, Num 1], PFloat 3)]"
    by (simp add: example_trained)
  have "state_action_key [0] 2 \<notin> set (map fst mass')"
    by (simp add: m' state_action_key_def tuple_of_def)
  then have "\<exists>i < length [7, 8, 9 :: nat]. state_action_key [0] i \<notin> set (map fst mass')"
    by (intro exI [of _ 2]) simp
  with miss have "NaivePolicy_predict
                \<lparr>state_action_mass = Some mass', state_action_weight = Some weight'\<rparr>
                [0] [7, 8, 9 :: nat]
              = Inr (replicate (length [7, 8, 9 :: nat])
                       (PFloat (1 / real (length [7, 8, 9 :: nat]))))"
    by blast
  then have second: "NaivePolicy_predict
     (snd (NaivePolicy_train example_samples
             \<lparr>state_action_mass = None, state_action_weight = None\<rparr>))
     [0] [7, 8, 9 :: nat] = Inr [PFloat (1/3), PFloat (1/3), PFloat (1/3)]"
    unfolding t' by (simp add: eval_nat_numeral)
  from first second show ?thesis by simp
qed

text \<open>
  C8, as amended. A run of \<^verbatim>\<open>NaivePolicy.train\<close> never raises, and afterwards the mass
  and the weight mappings hold the same keys: a key observed at most 5 times is in
  neither, a key observed at least 6 times is in both, with its count as its weight.
  A run of \<^verbatim>\<open>NaiveValue.train\<close> raises \<^verbatim>\<open>RuntimeError\<close> before it accumulates
  anything, and prunes nothing.
\<close>

theorem policy_train_prunes_both:
  "\<exists>mass weight.
     NaivePolicy_train samples self
       = (Inr (), \<lparr>state_action_mass = Some mass, state_action_weight = Some weight\<rparr>)
     \<and> set (map fst mass) = set (map fst weight)
     \<and> (\<forall>k. (count_list (training_keys samples) k \<le> 5
               \<longrightarrow> k \<notin> set (map fst mass) \<and> k \<notin> set (map fst weight))
            \<and> (6 \<le> count_list (training_keys samples) k
               \<longrightarrow> k \<in> set (map fst mass) \<and> k \<in> set (map fst weight)
                   \<and> map_of weight k
                       = Some (PFloat (real (count_list (training_keys samples) k)))))
     \<and> NaiveValue_train split_train_test value_samples test_fraction value_self
         = (Inl (RuntimeError ''Broken''), value_self)"
proof -
  obtain mass weight where
    t: "NaivePolicy_train samples self
          = (Inr (), \<lparr>state_action_mass = Some mass, state_action_weight = Some weight\<rparr>)"
    and keys: "map fst mass = map fst weight"
    and w: "\<And>k. map_of weight k
              = (if 6 \<le> count_list (training_keys samples) k
                 then Some (PFloat (real (count_list (training_keys samples) k)))
                 else None)"
    using trained_policy [of samples self] by blast
  have v: "NaiveValue_train split_train_test value_samples test_fraction value_self
           = (Inl (RuntimeError ''Broken''), value_self)"
    by (simp add: NaiveValue_train_def seq_def raise_def)
  have "\<forall>k. (count_list (training_keys samples) k \<le> 5
               \<longrightarrow> k \<notin> set (map fst mass) \<and> k \<notin> set (map fst weight))
            \<and> (6 \<le> count_list (training_keys samples) k
               \<longrightarrow> k \<in> set (map fst mass) \<and> k \<in> set (map fst weight)
                   \<and> map_of weight k
                       = Some (PFloat (real (count_list (training_keys samples) k))))"
    unfolding keys map_of_keys w by simp
  moreover have "fst ` set mass = fst ` set weight"
    using arg_cong [OF keys, of set] by simp
  ultimately show ?thesis using t v by simp
qed

theorem policy_train_prunes_both_witness:
  "count_list (training_keys example_samples) (Tup [Num 1, Num 0]) = 5
   \<and> count_list (training_keys example_samples) (Tup [Num 0, Num 1]) = 6
   \<and> NaivePolicy_train example_samples \<lparr>state_action_mass = None, state_action_weight = None\<rparr>
   = (Inr (), \<lparr>state_action_mass = Some [(Tup [Num 0, Num 0], PFloat 3), (Tup [Num 0, Num 1], PFloat 3)],
                state_action_weight = Some [(Tup [Num 0, Num 0], PFloat 6), (Tup [Num 0, Num 1], PFloat 6)]\<rparr>)"
proof -
  note claim = policy_train_prunes_both [of example_samples
      "\<lparr>state_action_mass = None, state_action_weight = None\<rparr>"
      train_on_everything "[]" "1/5"
      "\<lparr>state_visits = None, state_wins = None\<rparr>"]
  have c: "count_list (training_keys example_samples) (Tup [Num 1, Num 0]) = 5"
    "count_list (training_keys example_samples) (Tup [Num 0, Num 1]) = 6"
    by (simp_all add: training_keys_def example_samples_def state_action_key_def tuple_of_def
        eval_nat_numeral)
  from claim c example_trained show ?thesis by simp
qed

text \<open>
  C8 as stated fails for the value estimator: trained on six samples of one state, a
  fresh \<^verbatim>\<open>NaiveValue\<close> raises and is left with no mapping at all, so the key that was
  seen six times has not survived.
\<close>

theorem value_train_keeps_no_key_counterexample:
  "fst (NaiveValue_train train_on_everything (replicate 6 ([0], PInt 1)) (1/5)
          \<lparr>state_visits = None, state_wins = None\<rparr>) = Inl (RuntimeError ''Broken'')
   \<and> state_visits (snd (NaiveValue_train train_on_everything (replicate 6 ([0], PInt 1)) (1/5)
          \<lparr>state_visits = None, state_wins = None\<rparr>)) = None
   \<and> state_wins (snd (NaiveValue_train train_on_everything (replicate 6 ([0], PInt 1)) (1/5)
          \<lparr>state_visits = None, state_wins = None\<rparr>)) = None"
  by (simp add: NaiveValue_train_def seq_def raise_def)

section \<open>The claims about saving and loading\<close>

text \<open>
  C9. For a value estimator whose mappings hold integer counts and a policy estimator
  whose mappings hold floats, both over keys that are tuples of numbers, \<^verbatim>\<open>save\<close>
  followed by \<^verbatim>\<open>load\<close> of the same path yields an estimator with exactly the saved
  mappings: the same pairs in the same order, every key with its elements in order,
  every value of the numeric type it had.
\<close>

theorem save_then_load_round_trip:
  assumes "tabular_mapping is_int visits" and "tabular_mapping is_int wins"
    and "tabular_mapping is_float mass" and "tabular_mapping is_float weight"
  shows "(\<exists>fs'. NaiveValue_save \<lparr>state_visits = Some visits, state_wins = Some wins\<rparr>
                   path fs = Inr fs'
               \<and> NaiveValue_load path fs' value_self
                   = (Inr (), \<lparr>state_visits = Some visits, state_wins = Some wins\<rparr>))
       \<and> (\<exists>fs'. NaivePolicy_save
                   \<lparr>state_action_mass = Some mass, state_action_weight = Some weight\<rparr>
                   path fs = Inr fs'
               \<and> NaivePolicy_load path fs' policy_self
                   = (Inr (), \<lparr>state_action_mass = Some mass,
                                state_action_weight = Some weight\<rparr>))"
proof -
  let ?vdoc = "[(''state_visits'', items_json visits), (''state_wins'', items_json wins)]"
  let ?pdoc = "[(''state_action_mass'', items_json mass),
                (''state_action_weight'', items_json weight)]"
  have v1: "load_field py_int ?vdoc ''state_visits'' = Inr visits"
    by (rule load_field_saved [OF py_int_num_json assms(1)]) simp_all
  have v2: "load_field py_int ?vdoc ''state_wins'' = Inr wins"
    by (rule load_field_saved [OF py_int_num_json assms(2)]) simp_all
  have p1: "load_field py_float ?pdoc ''state_action_mass'' = Inr mass"
    by (rule load_field_saved [OF py_float_num_json assms(3)]) simp_all
  have p2: "load_field py_float ?pdoc ''state_action_weight'' = Inr weight"
    by (rule load_field_saved [OF py_float_num_json assms(4)]) simp_all
  have "NaiveValue_load path (fs(path \<mapsto> ?vdoc)) value_self
        = (Inr (), \<lparr>state_visits = Some visits, state_wins = Some wins\<rparr>)"
    by (simp add: NaiveValue_load_def v1 v2)
  moreover have "NaivePolicy_load path (fs(path \<mapsto> ?pdoc)) policy_self
        = (Inr (), \<lparr>state_action_mass = Some mass, state_action_weight = Some weight\<rparr>)"
    by (simp add: NaivePolicy_load_def p1 p2)
  ultimately show ?thesis
    by (simp add: NaiveValue_save_def NaivePolicy_save_def items_def and_then_def)
qed

theorem save_then_load_round_trip_witness:
  "(\<exists>fs'. NaiveValue_save
            \<lparr>state_visits = Some [(Tup [Num 0, Num 1], PInt 6)],
             state_wins = Some [(Tup [Num 0, Num 1], PInt 3)]\<rparr>
            ''value.json'' Map.empty = Inr fs'
        \<and> NaiveValue_load ''value.json'' fs' \<lparr>state_visits = None, state_wins = None\<rparr>
            = (Inr (), \<lparr>state_visits = Some [(Tup [Num 0, Num 1], PInt 6)],
                         state_wins = Some [(Tup [Num 0, Num 1], PInt 3)]\<rparr>))
   \<and> (\<exists>fs'. NaivePolicy_save
            \<lparr>state_action_mass = Some [(Tup [Num 0, Num 0], PFloat 3), (Tup [Num 0, Num 1], PFloat 3)],
             state_action_weight = Some [(Tup [Num 0, Num 0], PFloat 6), (Tup [Num 0, Num 1], PFloat 6)]\<rparr>
            ''policy.json'' Map.empty = Inr fs'
        \<and> NaivePolicy_load ''policy.json'' fs'
            \<lparr>state_action_mass = None, state_action_weight = None\<rparr>
            = (Inr (), \<lparr>state_action_mass = Some [(Tup [Num 0, Num 0], PFloat 3), (Tup [Num 0, Num 1], PFloat 3)],
             state_action_weight = Some [(Tup [Num 0, Num 0], PFloat 6), (Tup [Num 0, Num 1], PFloat 6)]\<rparr>))"
proof -
  have v: "tabular_mapping is_int [(Tup [Num 0, Num 1], PInt 6)]"
    "tabular_mapping is_int [(Tup [Num 0, Num 1], PInt 3)]"
    by (simp_all add: tabular_mapping_def)
  have p: "tabular_mapping is_float [(Tup [Num 0, Num 0], PFloat 3), (Tup [Num 0, Num 1], PFloat 3)]"
    "tabular_mapping is_float [(Tup [Num 0, Num 0], PFloat 6), (Tup [Num 0, Num 1], PFloat 6)]"
    by (simp_all add: tabular_mapping_def)
  show ?thesis
    by (intro conjI)
      (rule save_then_load_round_trip [OF v p, THEN conjunct1],
       rule save_then_load_round_trip [OF v p, THEN conjunct2])
qed

section \<open>The claims about NaiveValue\<close>

text \<open>
  C10. \<^verbatim>\<open>NaiveValue.train\<close> raises \<^verbatim>\<open>RuntimeError\<close> on every input and leaves the
  estimator, and so both of its mappings, as it found it: the accumulation that
  follows the \<^verbatim>\<open>raise\<close> is never run.
\<close>

theorem value_train_raises_unchanged:
  "NaiveValue_train split_train_test samples test_fraction self
   = (Inl (RuntimeError ''Broken''), self)"
  by (simp add: NaiveValue_train_def seq_def raise_def)

text \<open>
  C2. The claim is that \<^verbatim>\<open>NaiveValue.predict\<close> yields, for each row of the batch, wins
  over visits at that row's key. The code looks up the tuple of the whole batch in every
  iteration: for the one-row batch of the state (0, 1), trained with 3 wins in 6 visits,
  it yields 0, where the lookup at the row's own key gives 1/2.
\<close>

theorem value_predict_ignores_rows:
  "NaiveValue_predict
     \<lparr>state_visits = Some [(tuple_of [0, 1], PInt 6)],
      state_wins = Some [(tuple_of [0, 1], PInt 3)]\<rparr>
     [tuple_of [0, 1]]
   = Inr [PInt 0]
   \<and> wins_over_visits
       \<lparr>state_visits = Some [(tuple_of [0, 1], PInt 6)],
        state_wins = Some [(tuple_of [0, 1], PInt 3)]\<rparr>
       (tuple_of [0, 1])
     = Inr (PFloat (1/2))"
  by (simp add: NaiveValue_predict_def wins_over_visits_def subscript_def dict_getitem_def
      and_then_def py_truediv_def tuple_of_def)

end
